theory Spec2Isabelle
  imports Main
begin

section \<open>The INA219 telemetry collector (\<^verbatim>\<open>main.py\<close>)\<close>

text \<open>
  The collector polls a set of INA219 power sensors in rounds, buffers one sample per
  sensor and round in memory, and appends the buffer to a CSV file when the user
  interrupts it. The theory embeds the functions of \<^verbatim>\<open>main.py\<close> one by one.

  Conventions of the embedding:
  \<^item> a Python \<^verbatim>\<open>str\<close> is a \<open>string\<close>; a \<open>char\<close> stands for the code point of
    the same number, so text beyond code point 255 is not represented;
  \<^item> a raised exception is the \<open>Inl\<close> of a sum, or a constructor of the result type
    of the function that ends with it;
  \<^item> a Python \<^verbatim>\<open>float\<close> is a value of a type variable \<open>'f\<close>: the program never
    computes with one, it only stores it and converts it to text, and the two library
    conversions it needs (\<^verbatim>\<open>str\<close> of a float and
    \<^verbatim>\<open>datetime.datetime.fromtimestamp\<close>) are parameters, collected in a record;
  \<^item> the file system is a POSIX tree of directories and regular files, which a path is
    resolved in component by component; there are no symbolic links, every permission
    is granted and no device is full, and a text file holds its decoded content (a
    written \<^verbatim>\<open>\r\n\<close> stays as it is);
  \<^item> the interpreter is CPython 3.11 with its default settings;
  \<^item> console output is left out, and writing to the console is taken to succeed: no
    function of the program reads it back. Making the text that is printed is part of
    the embedding where it can raise.
\<close>

subsection \<open>Python library: text lines, \<^verbatim>\<open>str.split\<close>, \<^verbatim>\<open>int\<close>, \<^verbatim>\<open>str\<close>\<close>

datatype exn =
    ValueError | UnboundLocalError | IsADirectoryError | FileNotFoundError
  | NotADirectoryError | FileExistsError

abbreviation LF :: char where "LF \<equiv> CHR 0x0A"
abbreviation CR :: char where "CR \<equiv> CHR 0x0D"

text \<open>
  A file opened with \<^verbatim>\<open>open(mode="r")\<close> is read with universal newlines: each of
  \<^verbatim>\<open>\r\n\<close>, \<^verbatim>\<open>\r\<close> and \<^verbatim>\<open>\n\<close> ends a line and reaches the program as \<^verbatim>\<open>\n\<close>.
\<close>

fun translate_newlines :: "string \<Rightarrow> string" where
  "translate_newlines [] = []"
| "translate_newlines [c] = (if c = CR then [LF] else [c])"
| "translate_newlines (c # d # cs) =
     (if c = CR then
        (if d = LF then LF # translate_newlines cs else LF # translate_newlines (d # cs))
      else c # translate_newlines (d # cs))"

text \<open>
  Iterating over the file yields its lines, each with its terminator; a last line
  without one is yielded as it is, and an empty file yields nothing.
\<close>

fun split_lines :: "string \<Rightarrow> string list" where
  "split_lines [] = []"
| "split_lines (c # cs) =
     (if c = LF then [LF] # split_lines cs
      else (case split_lines cs of [] \<Rightarrow> [[c]] | l # ls \<Rightarrow> (c # l) # ls))"

definition file_lines :: "string \<Rightarrow> string list" where
  "file_lines content = split_lines (translate_newlines content)"

text \<open>\<^verbatim>\<open>s.split(",")\<close>: the fields between the commas, at least one.\<close>

fun split_comma :: "string \<Rightarrow> string list" where
  "split_comma [] = [[]]"
| "split_comma (c # cs) =
     (if c = CHR '','' then [] # split_comma cs
      else (case split_comma cs of [] \<Rightarrow> [[c]] | f # fs \<Rightarrow> (c # f) # fs))"

text \<open>
  \<^verbatim>\<open>int(s, base)\<close> for a string: white space is stripped on both sides, one sign
  may follow, with base 16 a prefix \<^verbatim>\<open>0x\<close> or \<^verbatim>\<open>0X\<close> (and one underscore after it)
  may follow, then come digits, with single underscores allowed between two digits.
  Anything else is a \<^verbatim>\<open>ValueError\<close>. The white space is that of the C locale (tab
  to carriage return, and the space) and, beyond ASCII, the code points 133 and 160,
  which the interpreter maps to a space first. When the base is no power of two, a
  string of more than 4300 digits (leading zeros counted, underscores not) is a
  \<^verbatim>\<open>ValueError\<close> too.
\<close>

definition max_str_digits :: nat where
  "max_str_digits = 4300"

definition py_isspace :: "char \<Rightarrow> bool" where
  "py_isspace c =
     (let n = (of_char c :: nat) in (9 \<le> n \<and> n \<le> 13) \<or> n = 32 \<or> n = 133 \<or> n = 160)"

definition py_strip :: "string \<Rightarrow> string" where
  "py_strip s = rev (dropWhile py_isspace (rev (dropWhile py_isspace s)))"

definition digit_of :: "nat \<Rightarrow> char \<Rightarrow> nat option" where
  "digit_of base c =
     (let n = (of_char c :: nat);
          v = (if 48 \<le> n \<and> n \<le> 57 then Some (n - 48)
               else if 97 \<le> n \<and> n \<le> 122 then Some (n - 87)
               else if 65 \<le> n \<and> n \<le> 90 then Some (n - 55)
               else None)
      in case v of None \<Rightarrow> None | Some d \<Rightarrow> if d < base then Some d else None)"

text \<open>The digits after the first one; \<open>acc\<close> is the value read so far.\<close>

fun more_digits :: "nat \<Rightarrow> nat \<Rightarrow> string \<Rightarrow> nat option" where
  "more_digits base acc [] = Some acc"
| "more_digits base acc [c] =
     (case digit_of base c of None \<Rightarrow> None | Some d \<Rightarrow> Some (acc * base + d))"
| "more_digits base acc (c # d # cs) =
     (if c = CHR ''_'' then
        (case digit_of base d of None \<Rightarrow> None
         | Some v \<Rightarrow> more_digits base (acc * base + v) cs)
      else
        (case digit_of base c of None \<Rightarrow> None
         | Some v \<Rightarrow> more_digits base (acc * base + v) (d # cs)))"

definition digits_value :: "nat \<Rightarrow> string \<Rightarrow> nat option" where
  "digits_value base s =
     (case s of [] \<Rightarrow> None
      | c # cs \<Rightarrow> (case digit_of base c of None \<Rightarrow> None
                   | Some d \<Rightarrow> more_digits base d cs))"

definition skip_prefix :: "nat \<Rightarrow> string \<Rightarrow> string" where
  "skip_prefix base s =
     (if base \<noteq> 16 then s
      else (case s of
              c # x # rest \<Rightarrow>
                (if c = CHR ''0'' \<and> (x = CHR ''x'' \<or> x = CHR ''X'') then
                   (case rest of u # rest' \<Rightarrow> if u = CHR ''_'' then rest' else rest
                    | [] \<Rightarrow> rest)
                 else s)
            | _ \<Rightarrow> s))"

definition binary_base :: "nat \<Rightarrow> bool" where
  "binary_base base = (base \<in> {2, 4, 8, 16, 32})"

definition py_int :: "nat \<Rightarrow> string \<Rightarrow> exn + int" where
  "py_int base s =
     (let t = py_strip s;
          (neg, u) = (case t of [] \<Rightarrow> (False, t)
                      | c # r \<Rightarrow> if c = CHR ''+'' then (False, r)
                                 else if c = CHR ''-'' then (True, r) else (False, t));
          body = skip_prefix base u
      in case digits_value base body of
           None \<Rightarrow> Inl ValueError
         | Some n \<Rightarrow>
             if \<not> binary_base base \<and> max_str_digits < length (filter (\<lambda>c. c \<noteq> CHR ''_'') body)
             then Inl ValueError
             else Inr (if neg then - int n else int n))"

text \<open>
  \<^verbatim>\<open>str(i)\<close> of an integer: its decimal digits, after a minus sign when negative. An
  integer of more than 4300 digits is not converted: \<^verbatim>\<open>str\<close> raises \<^verbatim>\<open>ValueError\<close>.
\<close>

fun str_nat :: "nat \<Rightarrow> string" where
  "str_nat n =
     (if n < 10 then [char_of (48 + n)] else str_nat (n div 10) @ [char_of (48 + n mod 10)])"

declare str_nat.simps [simp del]

definition str_int :: "int \<Rightarrow> string" where
  "str_int i = (if i < 0 then CHR ''-'' # str_nat (nat (- i)) else str_nat (nat i))"

definition py_str_int :: "int \<Rightarrow> exn + string" where
  "py_str_int i =
     (if max_str_digits < length (str_nat (nat \<bar>i\<bar>)) then Inl ValueError else Inr (str_int i))"

subsection \<open>Paths and the file system\<close>

text \<open>
  A \<^verbatim>\<open>pathlib.Path\<close> on POSIX: whether the path is absolute, and its components; empty
  components and components \<^verbatim>\<open>.\<close> are dropped when the path is made, \<^verbatim>\<open>..\<close> is kept.
  Joining a path with a string appends the components of the string, unless the string
  is an absolute path, which then replaces the path.
\<close>

fun split_slash :: "string \<Rightarrow> string list" where
  "split_slash [] = [[]]"
| "split_slash (c # cs) =
     (if c = CHR ''/'' then [] # split_slash cs
      else (case split_slash cs of [] \<Rightarrow> [[c]] | f # fs \<Rightarrow> (c # f) # fs))"

record ppath =
  is_abs :: bool
  parts :: "string list"

definition Path :: "string \<Rightarrow> ppath" where
  "Path s =
     \<lparr>is_abs = (case s of [] \<Rightarrow> False | c # _ \<Rightarrow> c = CHR ''/''),
      parts = filter (\<lambda>p. p \<noteq> [] \<and> p \<noteq> ''.'') (split_slash s)\<rparr>"

definition joinpath :: "ppath \<Rightarrow> string \<Rightarrow> ppath" where
  "joinpath p s = (if is_abs (Path s) then Path s else p\<lparr>parts := parts p @ parts (Path s)\<rparr>)"

text \<open>
  The tree: the node at each place, a place being the list of names that lead to it
  from the root, and the working directory of the process. The root is a directory.
\<close>

type_synonym place = "string list"

datatype node = Dir | File string

record filesystem =
  nodes :: "place \<rightharpoonup> node"
  cwd :: place

definition node_at :: "filesystem \<Rightarrow> place \<Rightarrow> node option" where
  "node_at fs k = (if k = [] then Some Dir else nodes fs k)"

text \<open>
  Resolving a path walks its components from the root or the working directory. Each
  component is looked up in a directory: when the walk stands on nothing it fails with
  \<^verbatim>\<open>ENOENT\<close>, on a regular file with \<^verbatim>\<open>ENOTDIR\<close>. The component \<^verbatim>\<open>..\<close> leads to the
  parent. Nothing need exist at the place the walk ends at.
\<close>

fun walk :: "filesystem \<Rightarrow> place \<Rightarrow> string list \<Rightarrow> exn + place" where
  "walk fs cur [] = Inr cur"
| "walk fs cur (c # cs) =
     (case node_at fs cur of
        None \<Rightarrow> Inl FileNotFoundError
      | Some (File content) \<Rightarrow> Inl NotADirectoryError
      | Some Dir \<Rightarrow> walk fs (if c = ''..'' then butlast cur else cur @ [c]) cs)"

definition resolve :: "filesystem \<Rightarrow> ppath \<Rightarrow> exn + place" where
  "resolve fs p = walk fs (if is_abs p then [] else cwd fs) (parts p)"

definition stat :: "filesystem \<Rightarrow> ppath \<Rightarrow> exn + node" where
  "stat fs p =
     (case resolve fs p of
        Inl e \<Rightarrow> Inl e
      | Inr k \<Rightarrow> (case node_at fs k of None \<Rightarrow> Inl FileNotFoundError | Some n \<Rightarrow> Inr n))"

text \<open>\<^verbatim>\<open>Path.exists()\<close> is false when \<^verbatim>\<open>stat\<close> fails with either error.\<close>

definition path_exists :: "filesystem \<Rightarrow> ppath \<Rightarrow> bool" where
  "path_exists fs p = (case stat fs p of Inl e \<Rightarrow> False | Inr n \<Rightarrow> True)"

text \<open>\<^verbatim>\<open>Path.mkdir()\<close>, without \<^verbatim>\<open>parents\<close> and without \<^verbatim>\<open>exist_ok\<close>.\<close>

definition mkdir :: "filesystem \<Rightarrow> ppath \<Rightarrow> exn + filesystem" where
  "mkdir fs p =
     (case resolve fs p of
        Inl e \<Rightarrow> Inl e
      | Inr k \<Rightarrow> (case node_at fs k of
                    None \<Rightarrow> Inr (fs\<lparr>nodes := (nodes fs)(k \<mapsto> Dir)\<rparr>)
                  | Some n \<Rightarrow> Inl FileExistsError))"

text \<open>
  \<^verbatim>\<open>Path.open\<close> in the three modes of the program. Reading gives the content. Writing
  and appending give the place of the file, which is made empty (mode \<^verbatim>\<open>w\<close>) or made
  when there is none (mode \<^verbatim>\<open>a\<close>); what is written then is put after the content,
  and is on the disk when the \<^verbatim>\<open>with\<close> statement is left, also by an exception.
\<close>

definition open_r :: "filesystem \<Rightarrow> ppath \<Rightarrow> exn + string" where
  "open_r fs p =
     (case stat fs p of
        Inl e \<Rightarrow> Inl e
      | Inr Dir \<Rightarrow> Inl IsADirectoryError
      | Inr (File content) \<Rightarrow> Inr content)"

definition open_w :: "filesystem \<Rightarrow> ppath \<Rightarrow> exn + place \<times> filesystem" where
  "open_w fs p =
     (case resolve fs p of
        Inl e \<Rightarrow> Inl e
      | Inr k \<Rightarrow> (case node_at fs k of
                    Some Dir \<Rightarrow> Inl IsADirectoryError
                  | _ \<Rightarrow> Inr (k, fs\<lparr>nodes := (nodes fs)(k \<mapsto> File [])\<rparr>)))"

definition open_a :: "filesystem \<Rightarrow> ppath \<Rightarrow> exn + place \<times> filesystem" where
  "open_a fs p =
     (case resolve fs p of
        Inl e \<Rightarrow> Inl e
      | Inr k \<Rightarrow> (case node_at fs k of
                    Some Dir \<Rightarrow> Inl IsADirectoryError
                  | Some (File content) \<Rightarrow> Inr (k, fs)
                  | None \<Rightarrow> Inr (k, fs\<lparr>nodes := (nodes fs)(k \<mapsto> File [])\<rparr>)))"

definition write_text :: "filesystem \<Rightarrow> place \<Rightarrow> string \<Rightarrow> filesystem" where
  "write_text fs k written =
     (case nodes fs k of
        Some (File content) \<Rightarrow> fs\<lparr>nodes := (nodes fs)(k \<mapsto> File (content @ written))\<rparr>
      | _ \<Rightarrow> fs)"

subsection \<open>\<^verbatim>\<open>get_test_id\<close>\<close>

text \<open>
  \<^verbatim>\<open>rid, *_ = last_row.split(",")\<close> binds the first field; unpacking an empty list
  would be a \<^verbatim>\<open>ValueError\<close>. When the file has no line, the loop variable \<^verbatim>\<open>line\<close>
  is never bound and reading it is an \<^verbatim>\<open>UnboundLocalError\<close>.
\<close>

definition get_test_id :: "filesystem \<Rightarrow> ppath \<Rightarrow> exn + int" where
  "get_test_id fs testpath =
     (if \<not> path_exists fs testpath then Inr 1
      else
        (case open_r fs testpath of
           Inl e \<Rightarrow> Inl e
         | Inr content \<Rightarrow>
             (case file_lines content of
                [] \<Rightarrow> Inl UnboundLocalError
              | l # ls \<Rightarrow>
                  (let last_row = last (l # ls) in
                   case split_comma last_row of
                     [] \<Rightarrow> Inl ValueError
                   | rid # _ \<Rightarrow>
                       (case py_int 10 rid of Inl e \<Rightarrow> Inl e | Inr n \<Rightarrow> Inr (n + 1))))))"

subsection \<open>\<^verbatim>\<open>csv.writer\<close> with the default dialect\<close>

text \<open>
  \<^verbatim>\<open>writerow\<close> joins the fields with commas and ends the record with \<^verbatim>\<open>\r\n\<close>.
  A field that holds a comma, a double quote, a carriage return or a line feed is put
  in double quotes, with each double quote of it doubled; a record of one empty field
  is written as two double quotes.
\<close>

abbreviation DQ :: char where "DQ \<equiv> CHR 0x22"

definition csv_special :: "char \<Rightarrow> bool" where
  "csv_special c = (c = CHR '','' \<or> c = DQ \<or> c = CR \<or> c = LF)"

definition csv_quote :: "string \<Rightarrow> string" where
  "csv_quote f =
     (if list_ex csv_special f
      then DQ # concat (map (\<lambda>c. if c = DQ then [DQ, DQ] else [c]) f) @ [DQ]
      else f)"

fun join_comma :: "string list \<Rightarrow> string" where
  "join_comma [] = []"
| "join_comma [f] = f"
| "join_comma (f # g # fs) = f @ CHR '','' # join_comma (g # fs)"

definition csv_writerow :: "string list \<Rightarrow> string" where
  "csv_writerow row =
     (if row = [[]] then [DQ, DQ] else join_comma (map csv_quote row)) @ [CR, LF]"

subsection \<open>Samples and their conversion to text\<close>

text \<open>
  A \<^verbatim>\<open>datetime\<close> object: its fields are checked when it is made, so they are in their
  ranges (the day is only bounded by 31 here, which admits more values than the class).
\<close>

record dt_fields =
  f_year :: nat
  f_month :: nat
  f_day :: nat
  f_hour :: nat
  f_minute :: nat
  f_second :: nat
  f_microsecond :: nat

definition dt_fields_ok :: "dt_fields \<Rightarrow> bool" where
  "dt_fields_ok d =
     (1 \<le> f_year d \<and> f_year d \<le> 9999 \<and> 1 \<le> f_month d \<and> f_month d \<le> 12
      \<and> 1 \<le> f_day d \<and> f_day d \<le> 31 \<and> f_hour d < 24 \<and> f_minute d < 60
      \<and> f_second d < 60 \<and> f_microsecond d < 1000000)"

typedef datetime = "{d. dt_fields_ok d}"
  morphisms fields_of datetime
  by (rule exI [of _ "\<lparr>f_year = 1, f_month = 1, f_day = 1, f_hour = 0, f_minute = 0,
        f_second = 0, f_microsecond = 0\<rparr>"])
     (simp add: dt_fields_ok_def)

setup_lifting type_definition_datetime

lift_definition dt_year :: "datetime \<Rightarrow> nat" is f_year .
lift_definition dt_month :: "datetime \<Rightarrow> nat" is f_month .
lift_definition dt_day :: "datetime \<Rightarrow> nat" is f_day .
lift_definition dt_hour :: "datetime \<Rightarrow> nat" is f_hour .
lift_definition dt_minute :: "datetime \<Rightarrow> nat" is f_minute .
lift_definition dt_second :: "datetime \<Rightarrow> nat" is f_second .
lift_definition dt_microsecond :: "datetime \<Rightarrow> nat" is f_microsecond .

text \<open>
  \<^verbatim>\<open>strftime("%Y-%m-%dT%H:%M:%S.%f")\<close>: every directive but \<^verbatim>\<open>%Y\<close> is padded with
  zeros to its width (2, or 6 for the microseconds); \<^verbatim>\<open>%Y\<close> is the year in decimal,
  which the C library does not pad.
\<close>

definition zero_pad :: "nat \<Rightarrow> nat \<Rightarrow> string" where
  "zero_pad w n = replicate (w - length (str_nat n)) (CHR ''0'') @ str_nat n"

definition strftime :: "datetime \<Rightarrow> string" where
  "strftime d =
     str_nat (dt_year d) @ ''-'' @ zero_pad 2 (dt_month d) @ ''-'' @ zero_pad 2 (dt_day d)
     @ ''T'' @ zero_pad 2 (dt_hour d) @ '':'' @ zero_pad 2 (dt_minute d) @ '':''
     @ zero_pad 2 (dt_second d) @ ''.'' @ zero_pad 6 (dt_microsecond d)"

text \<open>
  The two library conversions of floats: \<^verbatim>\<open>str\<close> (which \<^verbatim>\<open>csv.writer\<close> applies to
  every field that is not a string) and \<^verbatim>\<open>datetime.datetime.fromtimestamp\<close> (local
  time, taken to succeed: the time stamps are those of \<^verbatim>\<open>time.time()\<close>).
\<close>

record 'f platform =
  float_str :: "'f \<Rightarrow> string"
  fromtimestamp :: "'f \<Rightarrow> datetime"

definition convert_to_datetime :: "'f platform \<Rightarrow> 'f \<Rightarrow> string" where
  "convert_to_datetime plat ts = strftime (fromtimestamp plat ts)"

text \<open>
  The tuple \<^verbatim>\<open>(i, sensor_label, ts, dt, power, supply_volt, current)\<close> that the loop
  appends to \<^verbatim>\<open>samples\<close>.
\<close>

record 'f sample =
  s_run_id :: int
  s_label :: string
  s_ts :: 'f
  s_dt :: string
  s_power :: 'f
  s_volt :: 'f
  s_current :: 'f

text \<open>
  The fields that \<^verbatim>\<open>writerow\<close> makes of the tuple: the two strings as they are, the
  integer and the floats through \<^verbatim>\<open>str\<close>, which raises for an integer beyond the
  limit; then nothing of the row is written.
\<close>

definition sample_fields :: "'f platform \<Rightarrow> 'f sample \<Rightarrow> exn + string list" where
  "sample_fields plat s =
     (case py_str_int (s_run_id s) of
        Inl e \<Rightarrow> Inl e
      | Inr rid \<Rightarrow>
          Inr [rid, s_label s, float_str plat (s_ts s), s_dt s,
               float_str plat (s_power s), float_str plat (s_volt s),
               float_str plat (s_current s)])"

subsection \<open>\<^verbatim>\<open>write_to_csv\<close>\<close>

text \<open>
  \<^verbatim>\<open>for sample in samples: csv_appender.writerow(sample)\<close>: the text it writes, and
  the exception that ended it, if one did.
\<close>

fun write_rows :: "'f platform \<Rightarrow> 'f sample list \<Rightarrow> string \<times> exn option" where
  "write_rows plat [] = ([], None)"
| "write_rows plat (s # samples) =
     (case sample_fields plat s of
        Inl e \<Rightarrow> ([], Some e)
      | Inr row \<Rightarrow>
          (case write_rows plat samples of
             (written, raised) \<Rightarrow> (csv_writerow row @ written, raised)))"

text \<open>
  The header is written when nothing exists at the path; then the file is opened for
  appending and one record is written per sample. The result is the exception that left
  the function, if one did, and the file system as it is then.
\<close>

definition write_to_csv ::
  "'f platform \<Rightarrow> string list \<Rightarrow> 'f sample list \<Rightarrow> ppath \<Rightarrow> filesystem
     \<Rightarrow> exn option \<times> filesystem" where
  "write_to_csv plat csv_header samples testpath fs =
     (case (if \<not> path_exists fs testpath then
              (case open_w fs testpath of
                 Inl e \<Rightarrow> Inl e
               | Inr (k, fs') \<Rightarrow> Inr (write_text fs' k (csv_writerow csv_header)))
            else Inr fs) of
        Inl e \<Rightarrow> (Some e, fs)
      | Inr fs1 \<Rightarrow>
          (case open_a fs1 testpath of
             Inl e \<Rightarrow> (Some e, fs1)
           | Inr (k, fs2) \<Rightarrow>
               (case write_rows plat samples of
                  (written, raised) \<Rightarrow> (raised, write_text fs2 k written))))"

subsection \<open>The sensor registry\<close>

text \<open>
  The handle of a sensor: the bus number and the address it was built with (the shunt
  resistance, a float, is left out). Talking to the device is outside the model:
  building and configuring a handle succeeds.
\<close>

record ina219 =
  busnum :: int
  addr :: int

definition create_ina :: "int \<Rightarrow> ina219" where
  "create_ina i2c_address = \<lparr>busnum = 1, addr = i2c_address\<rparr>"

text \<open>
  A \<^verbatim>\<open>dict\<close> keeps its keys in the order of their first insertion; storing under a
  key that is present replaces the value and keeps the place.
\<close>

fun dict_set :: "('k \<times> 'v) list \<Rightarrow> 'k \<Rightarrow> 'v \<Rightarrow> ('k \<times> 'v) list" where
  "dict_set [] k v = [(k, v)]"
| "dict_set ((k', v') # d) k v =
     (if k' = k then (k', v) # d else (k', v') # dict_set d k v)"

text \<open>
  The dictionary comprehension of \<^verbatim>\<open>create_ina_map\<close>, entry by entry;
  \<^verbatim>\<open>int(i2c_addr, 16)\<close> raises on a string that is not a hexadecimal number.
\<close>

fun comprehension ::
  "(string \<times> string) list \<Rightarrow> (string \<times> ina219) list \<Rightarrow> exn + (string \<times> ina219) list" where
  "comprehension [] d = Inr d"
| "comprehension ((test, i2c_addr) # tests) d =
     (case py_int 16 i2c_addr of
        Inl e \<Rightarrow> Inl e
      | Inr a \<Rightarrow> comprehension tests (dict_set d test (create_ina a)))"

definition create_ina_map :: "(string \<times> string) list \<Rightarrow> exn + (string \<times> ina219) list" where
  "create_ina_map tests = comprehension tests []"

subsection \<open>The sampling loop\<close>

text \<open>
  What the outside world does while the loop runs is a trace of events, one for each
  pass through the body of the \<^verbatim>\<open>for\<close> loop: the pass reads the clock and the three
  measurements (\<open>Reading\<close>), or one of the three reads of the sensor raises
  \<^verbatim>\<open>DeviceRangeError\<close>, or a \<^verbatim>\<open>KeyboardInterrupt\<close> is delivered before the pass
  reaches \<^verbatim>\<open>samples.append\<close>. An interrupt that arrives between two passes (also
  between two rounds) finds the same buffer as one that arrives during the later pass,
  and is that event; when the line that verbose mode prints between two rounds cannot
  be made, the loop ends there, before such an interrupt. A trace that ends leaves the
  loop running.
\<close>

record 'f reading =
  r_ts :: 'f
  r_power :: 'f
  r_volt :: 'f
  r_current :: 'f

datatype 'f event = Reading "'f reading" | DeviceRangeError string | KeyboardInterrupt

text \<open>
  How the loop stands: the \<^verbatim>\<open>for\<close> loop ran to its end (\<open>Continue\<close>, with the buffer
  and the rest of the trace), an exception left the \<^verbatim>\<open>try\<close> block (with the buffer
  \<^verbatim>\<open>samples\<close> as it was then), or the trace ended.
\<close>

datatype 'f progress =
    Continue "'f sample list" "'f event list"
  | Interrupted "'f sample list"
  | RangeFault string "'f sample list"
  | Raised exn
  | StillRunning "'f sample list"

definition new_sample :: "'f platform \<Rightarrow> int \<Rightarrow> string \<Rightarrow> 'f reading \<Rightarrow> 'f sample" where
  "new_sample plat i sensor_label r =
     \<lparr>s_run_id = i, s_label = sensor_label, s_ts = r_ts r,
      s_dt = convert_to_datetime plat (r_ts r),
      s_power = r_power r, s_volt = r_volt r, s_current = r_current r\<rparr>"

text \<open>\<^verbatim>\<open>for sensor_label, ina in ina_map.items(): ...\<close> over the entries still to visit.\<close>

fun for_sensors ::
  "'f platform \<Rightarrow> int \<Rightarrow> (string \<times> ina219) list \<Rightarrow> 'f sample list \<Rightarrow> 'f event list
     \<Rightarrow> 'f progress" where
  "for_sensors plat i [] samples trace = Continue samples trace"
| "for_sensors plat i ((sensor_label, ina) # rest) samples [] = StillRunning samples"
| "for_sensors plat i ((sensor_label, ina) # rest) samples (ev # trace) =
     (case ev of
        Reading r \<Rightarrow>
          for_sensors plat i rest (samples @ [new_sample plat i sensor_label r]) trace
      | DeviceRangeError msg \<Rightarrow> RangeFault msg samples
      | KeyboardInterrupt \<Rightarrow> Interrupted samples)"

text \<open>
  In verbose mode a line is printed after each round. Its format \<^verbatim>\<open>{i:>7}\<close> writes
  the run identifier in decimal and raises \<^verbatim>\<open>ValueError\<close> beyond the limit of
  \<^verbatim>\<open>str\<close>; the other fields of the line are the label and the date, which are strings,
  and the floats of the last reading, whose formats do not fail.
\<close>

definition round_report :: "bool \<Rightarrow> int \<Rightarrow> exn option" where
  "round_report verbose i =
     (if verbose then (case py_str_int i of Inl e \<Rightarrow> Some e | Inr line \<Rightarrow> None) else None)"

text \<open>
  \<^verbatim>\<open>while True: for ...; if verbose: print(...); i += 1\<close>. With no sensor the body
  reads nothing: the loop spins until it is interrupted, unless the mode is verbose, in
  which the line cannot be made, since the variables of its float fields then hold the
  column names (\<^verbatim>\<open>{power:12.4f}\<close> of a string is a \<^verbatim>\<open>ValueError\<close>).
\<close>

function while_true ::
  "'f platform \<Rightarrow> bool \<Rightarrow> (string \<times> ina219) list \<Rightarrow> int \<Rightarrow> 'f sample list
     \<Rightarrow> 'f event list \<Rightarrow> 'f progress" where
  "while_true plat verbose ina_map i samples trace =
     (if ina_map = [] then
        (case trace of KeyboardInterrupt # _ \<Rightarrow> Interrupted samples
         | _ \<Rightarrow> if verbose then Raised ValueError else StillRunning samples)
      else
        (case for_sensors plat i ina_map samples trace of
           Continue samples' trace' \<Rightarrow>
             (case round_report verbose i of
                Some e \<Rightarrow> Raised e
              | None \<Rightarrow> while_true plat verbose ina_map (i + 1) samples' trace')
         | end \<Rightarrow> end))"
  by pat_completeness auto
termination
proof (relation "measure (\<lambda>(plat, verbose, ina_map, i, samples, trace). length trace)")
  show "wf (measure (\<lambda>(plat, verbose, ina_map, i, samples, trace). length trace))"
    by simp
next
  fix plat :: "'f platform" and verbose :: bool and ina_map :: "(string \<times> ina219) list"
    and i :: int and samples samples' :: "'f sample list"
    and trace trace' :: "'f event list"
  assume nonempty: "ina_map \<noteq> []"
    and continue: "for_sensors plat i ina_map samples trace = Continue samples' trace'"
  have consumes: "for_sensors plat i pending buf tr = Continue samples' trace'
      \<Longrightarrow> length trace' + length pending = length tr" for pending buf tr
    by (induction plat i pending buf tr rule: for_sensors.induct)
       (auto split: event.splits)
  from consumes [OF continue] nonempty have "length trace' < length trace"
    by (cases ina_map) auto
  then show "((plat, verbose, ina_map, i + 1, samples', trace'),
        (plat, verbose, ina_map, i, samples, trace))
      \<in> measure (\<lambda>(plat, verbose, ina_map, i, samples, trace). length trace)"
    by simp
qed

declare while_true.simps [simp del]

subsection \<open>\<^verbatim>\<open>main\<close>\<close>

definition csv_header :: "string list" where
  "csv_header =
     [''test id'', ''sensor label'', ''timestamp epoch sec'', ''timestamp datetime'',
      ''power mW'', ''supply voltage V'', ''current mA'']"

text \<open>
  \<^verbatim>\<open>get_test_filepath\<close> makes the output directory when nothing exists at its path,
  which fails when the directory above is missing or is a regular file, and returns the
  path of the file in it.
\<close>

definition get_test_filepath ::
  "filesystem \<Rightarrow> string \<Rightarrow> string \<Rightarrow> exn + filesystem \<times> ppath" where
  "get_test_filepath fs output testfile =
     (let out = Path output
      in case (if \<not> path_exists fs out then mkdir fs out else Inr fs) of
           Inl e \<Rightarrow> Inl e
         | Inr fs1 \<Rightarrow> Inr (fs1, joinpath out testfile))"

text \<open>The body of the \<^verbatim>\<open>try\<close> statement: the resume identifier, then the loop.\<close>

definition try_block ::
  "'f platform \<Rightarrow> bool \<Rightarrow> (string \<times> ina219) list \<Rightarrow> ppath \<Rightarrow> filesystem
     \<Rightarrow> 'f event list \<Rightarrow> 'f progress" where
  "try_block plat verbose ina_map testpath fs trace =
     (case get_test_id fs testpath of
        Inl e \<Rightarrow> Raised e
      | Inr i \<Rightarrow> while_true plat verbose ina_map i [] trace)"

text \<open>
  How the process ends: \<^verbatim>\<open>sys.exit\<close> with a status (status 2 is the usage error of
  the command line, which requires at least one \<^verbatim>\<open>--tests\<close> option), an exception
  that no handler catches (the interpreter prints the traceback), or not yet.
\<close>

datatype proc_end = Exit nat | Traceback exn | Running

definition main ::
  "'f platform \<Rightarrow> string \<Rightarrow> (string \<times> string) list \<Rightarrow> bool \<Rightarrow> string \<Rightarrow> filesystem
     \<Rightarrow> 'f event list \<Rightarrow> proc_end \<times> filesystem" where
  "main plat filename tests verbose output fs trace =
     (if tests = [] then (Exit 2, fs)
      else
        (case create_ina_map tests of
           Inl e \<Rightarrow> (Traceback e, fs)
         | Inr ina_map \<Rightarrow>
             (case get_test_filepath fs output (filename @ ''.csv'') of
                Inl e \<Rightarrow> (Traceback e, fs)
              | Inr (fs1, testpath) \<Rightarrow>
                  (case try_block plat verbose ina_map testpath fs1 trace of
                     Interrupted samples \<Rightarrow>
                       (case write_to_csv plat csv_header samples testpath fs1 of
                          (Some e, fs2) \<Rightarrow> (Traceback e, fs2)
                        | (None, fs2) \<Rightarrow> (Exit 0, fs2))
                   | RangeFault msg samples \<Rightarrow> (Exit 1, fs1)
                   | Raised e \<Rightarrow> (Traceback e, fs1)
                   | Continue samples rest \<Rightarrow> (Running, fs1)
                   | StillRunning samples \<Rightarrow> (Running, fs1)))))"

subsection \<open>Notions used to state the properties\<close>

text \<open>
  The samples that one round with run identifier \<open>i\<close> appends for the readings \<open>rs\<close>,
  one per sensor in the order of the registry (fewer when the round was cut short), and
  the samples of successive rounds, the first of which has the identifier \<open>i\<close>.
\<close>

definition round_samples ::
  "'f platform \<Rightarrow> int \<Rightarrow> (string \<times> ina219) list \<Rightarrow> 'f reading list \<Rightarrow> 'f sample list" where
  "round_samples plat i ina_map rs =
     map (\<lambda>(entry, r). new_sample plat i (fst entry) r) (zip ina_map rs)"

fun session_samples ::
  "'f platform \<Rightarrow> int \<Rightarrow> (string \<times> ina219) list \<Rightarrow> 'f reading list list
     \<Rightarrow> 'f sample list" where
  "session_samples plat i ina_map [] = []"
| "session_samples plat i ina_map (rs # rounds) =
     round_samples plat i ina_map rs @ session_samples plat (i + 1) ina_map rounds"


text \<open>An integer that \<^verbatim>\<open>str\<close> and \<^verbatim>\<open>int\<close> convert: it has at most 4300 digits.\<close>

definition in_str_limit :: "int \<Rightarrow> bool" where
  "in_str_limit i = (length (str_nat (nat \<bar>i\<bar>)) \<le> max_str_digits)"



text \<open>
  A line of text can be the record of a sample only if it has a field for each of the
  seven columns, that is at least six commas.
\<close>

definition has_sample_columns :: "string \<Rightarrow> bool" where
  "has_sample_columns row = (length csv_header \<le> length (split_comma row))"













text \<open>
  A platform for the examples: a float is represented by the text that \<^verbatim>\<open>str\<close>
  gives for it, and the clock stands at 7 May 2024, 09:03:01.000042 local time. A file
  system for them: the working directory \<^verbatim>\<open>/home\<close>, empty, or with a directory
  \<^verbatim>\<open>out\<close> that holds a log of the given content.
\<close>

lift_definition demo_datetime :: datetime is
  "\<lparr>f_year = 2024, f_month = 5, f_day = 7, f_hour = 9, f_minute = 3, f_second = 1,
    f_microsecond = 42\<rparr>"
  by (simp add: dt_fields_ok_def)

definition demo_platform :: "string platform" where
  "demo_platform = \<lparr>float_str = (\<lambda>x. x), fromtimestamp = (\<lambda>x. demo_datetime)\<rparr>"

definition demo_reading :: "string reading" where
  "demo_reading =
     \<lparr>r_ts = ''1715065381.000042'', r_power = ''12.5'', r_volt = ''5.02'', r_current = ''2.49''\<rparr>"


definition home_with_log :: "string \<Rightarrow> filesystem" where
  "home_with_log content =
     \<lparr>nodes = [[''home''] \<mapsto> Dir, [''home'', ''out''] \<mapsto> Dir,
               [''home'', ''out'', ''test.csv''] \<mapsto> File content],
      cwd = [''home'']\<rparr>"

section \<open>Properties\<close>

subsection \<open>Decimal numerals\<close>

lemmas str_nat_unfold = str_nat.simps



lemma length_str_nat_le: "0 < k \<Longrightarrow> n < 10 ^ k \<Longrightarrow> length (str_nat n) \<le> (k::nat)"
proof (induction n arbitrary: k rule: str_nat.induct)
  case (1 n)
  show ?case
  proof (cases "n < 10")
    case True
    with 1(2) show ?thesis by (subst str_nat_unfold) simp
  next
    case False
    from 1(2) obtain j where k: "k = Suc j" by (cases k) auto
    with False 1(3) have "0 < j" by (cases j) auto
    with k have j: "k = Suc j" "0 < j" by simp_all
    with 1(3) have "n div 10 < 10 ^ j"
      by (simp add: less_mult_imp_div_less mult.commute)
    from 1(1) [OF False j(2) this] False j show ?thesis
      by (subst str_nat_unfold) simp
  qed
qed

lemma length_str_nat_gt: "10 ^ k \<le> n \<Longrightarrow> (k::nat) < length (str_nat n)"
proof (induction n arbitrary: k rule: str_nat.induct)
  case (1 n)
  show ?case
  proof (cases "n < 10")
    case True
    have "k = 0"
    proof (cases k)
      case (Suc j)
      have "(10::nat) \<le> 10 * 10 ^ j" by simp
      with 1(2) Suc True show ?thesis by simp
    qed simp
    with True show ?thesis by (subst str_nat_unfold) simp
  next
    case False
    show ?thesis
    proof (cases k)
      case 0
      then show ?thesis by (subst str_nat_unfold) simp
    next
      case (Suc j)
      with 1(2) have "10 ^ j \<le> n div 10"
        by (simp add: less_eq_div_iff_mult_less_eq mult.commute)
      from 1(1) [OF False this] False Suc show ?thesis
        by (subst str_nat_unfold) simp
    qed
  qed
qed









subsection \<open>The conversion limit\<close>

lemma length_str_nat_iff: "0 < k \<Longrightarrow> (length (str_nat n) \<le> k) = (n < 10 ^ k)"
proof
  assume "length (str_nat n) \<le> k"
  then have "\<not> 10 ^ k \<le> n"
    using length_str_nat_gt [of k n] by auto
  then show "n < 10 ^ k" by simp
next
  assume "0 < k" "n < 10 ^ k"
  then show "length (str_nat n) \<le> k" by (rule length_str_nat_le)
qed

lemma in_str_limit_iff: "in_str_limit i = (nat \<bar>i\<bar> < 10 ^ max_str_digits)"
proof -
  have "0 < max_str_digits" by (simp add: max_str_digits_def)
  then show ?thesis
    unfolding in_str_limit_def by (rule length_str_nat_iff)
qed

lemma in_str_limit_between:
  assumes "in_str_limit a" "in_str_limit b" "a \<le> j" "j \<le> b"
  shows "in_str_limit j"
proof -
  have "nat \<bar>j\<bar> \<le> nat \<bar>a\<bar> \<or> nat \<bar>j\<bar> \<le> nat \<bar>b\<bar>"
    using assms(3,4) by linarith
  then show ?thesis
    using assms(1,2) unfolding in_str_limit_iff by (auto elim: le_less_trans)
qed

lemma round_report_ok: "verbose \<longrightarrow> in_str_limit i \<Longrightarrow> round_report verbose i = None"
  by (auto simp: round_report_def py_str_int_def in_str_limit_def)

lemma printable_rounds:
  assumes "verbose \<longrightarrow> in_str_limit i \<and> in_str_limit (i + int n)"
  shows "\<forall>k\<le>n. verbose \<longrightarrow> in_str_limit (i + int k)"
proof (intro allI impI)
  fix k assume "k \<le> n" verbose
  with assms have "in_str_limit i" "in_str_limit (i + int n)" "i \<le> i + int k"
    "i + int k \<le> i + int n"
    by simp_all
  then show "in_str_limit (i + int k)" by (rule in_str_limit_between)
qed

subsection \<open>Auxiliary facts\<close>

lemma split_comma_nonempty: "split_comma s \<noteq> []"
  by (induction s) (auto split: list.splits)

lemma round_samples_Nil [simp]:
  "round_samples plat i [] rs = []" "round_samples plat i ina_map [] = []"
  by (simp_all add: round_samples_def)

lemma round_samples_Cons [simp]:
  "round_samples plat i ((l, ina) # pending) (r # rs) =
     new_sample plat i l r # round_samples plat i pending rs"
  by (simp add: round_samples_def)

lemma for_sensors_full:
  "length rs = length pending \<Longrightarrow>
   for_sensors plat i pending samples (map Reading rs @ t) =
     Continue (samples @ round_samples plat i pending rs) t"
proof (induction pending arbitrary: samples rs)
  case Nil
  then show ?case by simp
next
  case (Cons entry pending)
  then obtain r rs' where rs: "rs = r # rs'" by (cases rs) auto
  obtain l ina where entry: "entry = (l, ina)" by (cases entry)
  from Cons rs entry show ?case by simp
qed

lemma for_sensors_interrupted:
  "length rs < length pending \<Longrightarrow>
   for_sensors plat i pending samples (map Reading rs @ KeyboardInterrupt # t) =
     Interrupted (samples @ round_samples plat i pending rs)"
proof (induction pending arbitrary: samples rs)
  case Nil
  then show ?case by simp
next
  case (Cons entry pending)
  obtain l ina where entry: "entry = (l, ina)" by (cases entry)
  show ?case
  proof (cases rs)
    case Nil
    with entry show ?thesis by simp
  next
    case (Cons r rs')
    with Cons.prems Cons.IH [of rs'] entry show ?thesis by simp
  qed
qed

lemma for_sensors_range_fault:
  "length rs < length pending \<Longrightarrow>
   for_sensors plat i pending samples (map Reading rs @ DeviceRangeError msg # t) =
     RangeFault msg (samples @ round_samples plat i pending rs)"
proof (induction pending arbitrary: samples rs)
  case Nil
  then show ?case by simp
next
  case (Cons entry pending)
  obtain l ina where entry: "entry = (l, ina)" by (cases entry)
  show ?case
  proof (cases rs)
    case Nil
    with entry show ?thesis by simp
  next
    case (Cons r rs')
    with Cons.prems Cons.IH [of rs'] entry show ?thesis by simp
  qed
qed

lemma while_true_round:
  assumes "ina_map \<noteq> []" "length rs = length ina_map" "verbose \<longrightarrow> in_str_limit i"
  shows "while_true plat verbose ina_map i samples (map Reading rs @ t) =
         while_true plat verbose ina_map (i + 1) (samples @ round_samples plat i ina_map rs) t"
  using assms(1,2) round_report_ok [OF assms(3)]
  by (subst while_true.simps) (simp add: for_sensors_full)

lemma while_true_rounds:
  assumes "ina_map \<noteq> []" "\<forall>rs\<in>set rounds. length rs = length ina_map"
    and "\<forall>k<length rounds. verbose \<longrightarrow> in_str_limit (i + int k)"
  shows "while_true plat verbose ina_map i samples (concat (map (map Reading) rounds) @ t) =
         while_true plat verbose ina_map (i + int (length rounds))
           (samples @ session_samples plat i ina_map rounds) t"
  using assms
proof (induction rounds arbitrary: i samples)
  case Nil
  then show ?case by simp
next
  case (Cons rs rounds)
  have first: "verbose \<longrightarrow> in_str_limit i"
    using Cons.prems(3) by auto
  have later: "\<forall>k<length rounds. verbose \<longrightarrow> in_str_limit (i + 1 + int k)"
  proof (intro allI impI)
    fix k assume "k < length rounds" verbose
    with Cons.prems(3) have "in_str_limit (i + int (Suc k))" by auto
    then show "in_str_limit (i + 1 + int k)" by (simp add: add.commute add.left_commute)
  qed
  from Cons.prems(1,2) first
  have "while_true plat verbose ina_map i samples (map Reading rs @ concat (map (map Reading) rounds) @ t) =
    while_true plat verbose ina_map (i + 1) (samples @ round_samples plat i ina_map rs) (concat (map (map Reading) rounds) @ t)"
    by (intro while_true_round) auto
  also have "\<dots> = while_true plat verbose ina_map (i + 1 + int (length rounds))
      (samples @ round_samples plat i ina_map rs @ session_samples plat (i + 1) ina_map rounds) t"
    using Cons.IH [of "i + 1" "samples @ round_samples plat i ina_map rs"] Cons.prems(1,2) later
    by simp
  finally show ?case by (simp add: add.assoc)
qed

lemma while_true_interrupted:
  assumes "ina_map \<noteq> []" "length rs < length ina_map"
  shows "while_true plat verbose ina_map i samples (map Reading rs @ KeyboardInterrupt # t) =
         Interrupted (samples @ round_samples plat i ina_map rs)"
  using assms by (subst while_true.simps) (simp add: for_sensors_interrupted)

lemma while_true_range_fault:
  assumes "ina_map \<noteq> []" "length rs < length ina_map"
  shows "while_true plat verbose ina_map i samples (map Reading rs @ DeviceRangeError msg # t) =
         RangeFault msg (samples @ round_samples plat i ina_map rs)"
  using assms by (subst while_true.simps) (simp add: for_sensors_range_fault)

lemma split_rounds:
  assumes "0 < n"
  shows "\<exists>rounds partial. rs = concat rounds @ partial
           \<and> (\<forall>r\<in>set rounds. length r = n) \<and> length partial < n"
proof (induction "length rs" arbitrary: rs rule: less_induct)
  case less
  show ?case
  proof (cases "length rs < n")
    case True
    then have "rs = concat [] @ rs \<and> (\<forall>r\<in>set []. length r = n) \<and> length rs < n" by simp
    then show ?thesis by blast
  next
    case False
    with assms have "length (drop n rs) < length rs" by simp
    from less [OF this] obtain rounds partial where
      d: "drop n rs = concat rounds @ partial" "\<forall>r\<in>set rounds. length r = n" "length partial < n"
      by blast
    from False have len: "length (take n rs) = n" by simp
    have "take n rs @ drop n rs = rs" by simp
    then have "take n rs @ concat rounds @ partial = rs" unfolding d(1) .
    then have "rs = concat (take n rs # rounds) @ partial" by simp
    moreover from len d(2) have "\<forall>r\<in>set (take n rs # rounds). length r = n" by simp
    ultimately have "rs = concat (take n rs # rounds) @ partial
        \<and> (\<forall>r\<in>set (take n rs # rounds). length r = n) \<and> length partial < n"
      using d(3) by blast
    then show ?thesis by blast
  qed
qed

lemma length_round_samples [simp]:
  "length (round_samples plat i ina_map rs) = min (length ina_map) (length rs)"
  by (simp add: round_samples_def)

lemma length_session_samples:
  "\<forall>rs\<in>set rounds. length rs = length ina_map \<Longrightarrow>
   length (session_samples plat i ina_map rounds) = length rounds * length ina_map"
  by (induction rounds arbitrary: i) auto

lemma run_id_round_samples:
  "map s_run_id (round_samples plat i ina_map rs) = replicate (min (length ina_map) (length rs)) i"
  by (induction ina_map arbitrary: rs) (auto simp: round_samples_def new_sample_def map_replicate_const split: prod.splits intro!: replicate_eqI)

lemma label_round_samples:
  "map s_label (round_samples plat i ina_map rs) = take (length rs) (map fst ina_map)"
proof (induction ina_map arbitrary: rs)
  case Nil
  then show ?case by simp
next
  case (Cons e ina_map)
  then show ?case by (cases rs; cases e) (simp_all add: new_sample_def)
qed

lemma session_samples_slice:
  assumes "\<forall>rs\<in>set rounds. length rs = length ina_map" "k < length rounds"
  shows "take (length ina_map) (drop (k * length ina_map) (session_samples plat i ina_map rounds))
         = round_samples plat (i + int k) ina_map (rounds ! k)"
  using assms
proof (induction rounds arbitrary: i k)
  case Nil
  then show ?case by simp
next
  case (Cons rs rounds)
  show ?case
  proof (cases k)
    case 0
    with Cons.prems show ?thesis by simp
  next
    case (Suc j)
    with Cons.prems Cons.IH [of j "i + 1"] show ?thesis by (simp add: add.assoc)
  qed
qed

lemma comprehension_nonempty:
  "comprehension tests d = Inr ina_map \<Longrightarrow> tests \<noteq> [] \<or> d \<noteq> [] \<Longrightarrow> ina_map \<noteq> []"
proof (induction tests arbitrary: d)
  case Nil
  then show ?case by simp
next
  case (Cons t tests)
  obtain l a where t: "t = (l, a)" by (cases t)
  from Cons.prems obtain n where n: "py_int 16 a = Inr n"
    and rest: "comprehension tests (dict_set d l (create_ina n)) = Inr ina_map"
    by (auto simp: t split: sum.splits)
  have "dict_set d l (create_ina n) \<noteq> []" by (cases d) (auto split: if_splits)
  with Cons.IH [OF rest] show ?case by simp
qed

lemma create_ina_map_nonempty:
  "create_ina_map tests = Inr ina_map \<Longrightarrow> tests \<noteq> [] \<Longrightarrow> ina_map \<noteq> []"
  unfolding create_ina_map_def by (rule comprehension_nonempty) auto

lemma session_samples_append:
  "session_samples plat i ina_map (rounds @ more_rounds) =
     session_samples plat i ina_map rounds
     @ session_samples plat (i + int (length rounds)) ina_map more_rounds"
  by (induction rounds arbitrary: i) (simp_all add: add.assoc)

lemma while_true_cancelled:
  assumes "ina_map \<noteq> []" "\<forall>rs\<in>set rounds. length rs = length ina_map"
    and "length partial < length ina_map"
    and "verbose \<longrightarrow> in_str_limit i \<and> in_str_limit (i + int (length rounds))"
  shows "while_true plat verbose ina_map i samples
           (concat (map (map Reading) rounds) @ map Reading partial @ KeyboardInterrupt # t)
         = Interrupted (samples @ session_samples plat i ina_map (rounds @ [partial]))"
proof -
  have "\<forall>k<length rounds. verbose \<longrightarrow> in_str_limit (i + int k)"
    using printable_rounds [OF assms(4)] by auto
  with assms(1,2,3) show ?thesis
    by (simp add: while_true_rounds while_true_interrupted session_samples_append)
qed

lemma while_true_faulted:
  assumes "ina_map \<noteq> []" "\<forall>rs\<in>set rounds. length rs = length ina_map"
    and "length partial < length ina_map"
    and "verbose \<longrightarrow> in_str_limit i \<and> in_str_limit (i + int (length rounds))"
  shows "while_true plat verbose ina_map i samples
           (concat (map (map Reading) rounds) @ map Reading partial @ DeviceRangeError msg # t)
         = RangeFault msg (samples @ session_samples plat i ina_map (rounds @ [partial]))"
proof -
  have "\<forall>k<length rounds. verbose \<longrightarrow> in_str_limit (i + int k)"
    using printable_rounds [OF assms(4)] by auto
  with assms(1,2,3) show ?thesis
    by (simp add: while_true_rounds while_true_range_fault session_samples_append)
qed


lemma length_split_comma: "length (split_comma s) = Suc (count_list s (CHR '',''))"
  by (induction s) (auto split: list.splits)

lemma py_int_error: "py_int base s = Inl e \<Longrightarrow> e = ValueError"
  by (auto simp: py_int_def Let_def split: option.splits prod.splits if_splits)

lemma get_test_id_absent: "\<not> path_exists fs p \<Longrightarrow> get_test_id fs p = Inr 1"
  by (simp add: get_test_id_def)

lemma get_test_id_file:
  "stat fs p = Inr (File content) \<Longrightarrow>
   get_test_id fs p =
     (if file_lines content = [] then Inl UnboundLocalError
      else case py_int 10 (hd (split_comma (last (file_lines content)))) of
             Inl e \<Rightarrow> Inl e | Inr n \<Rightarrow> Inr (n + 1))"
  using split_comma_nonempty [of "last (file_lines content)"]
  by (auto simp: get_test_id_def path_exists_def open_r_def Let_def
      split: list.splits sum.splits)

lemma get_test_id_dir: "stat fs p = Inr Dir \<Longrightarrow> get_test_id fs p = Inl IsADirectoryError"
  by (simp add: get_test_id_def path_exists_def open_r_def)

lemma stat_cases:
  "(\<not> path_exists fs p) \<or> stat fs p = Inr Dir \<or> (\<exists>content. stat fs p = Inr (File content))"
proof (cases "stat fs p")
  case (Inl e)
  then show ?thesis by (simp add: path_exists_def)
next
  case (Inr n)
  then show ?thesis by (cases n) auto
qed

subsection \<open>The file system\<close>





lemma stat_resolved:
  "resolve fs p = Inr k \<Longrightarrow>
   stat fs p = (case node_at fs k of None \<Rightarrow> Inl FileNotFoundError | Some n \<Rightarrow> Inr n)"
  by (simp add: stat_def)

lemma stat_unresolved: "resolve fs p = Inl e \<Longrightarrow> stat fs p = Inl e"
  by (simp add: stat_def)



lemma write_to_csv_unresolved:
  "resolve fs p = Inl e \<Longrightarrow> write_to_csv plat header samples p fs = (Some e, fs)"
  by (simp add: write_to_csv_def path_exists_def stat_unresolved open_w_def)

lemma write_to_csv_dir:
  assumes "resolve fs p = Inr k" "node_at fs k = Some Dir"
  shows "write_to_csv plat header samples p fs = (Some IsADirectoryError, fs)"
  using assms by (simp add: write_to_csv_def path_exists_def stat_resolved open_a_def)



lemma get_test_filepath_result:
  assumes "get_test_filepath fs output testfile = Inr (fs1, testpath)"
  shows "testpath = joinpath (Path output) testfile"
    and "cwd fs1 = cwd fs"
    and "nodes fs1 k = nodes fs k \<or> (nodes fs k = None \<and> nodes fs1 k = Some Dir)"
proof -
  from assms show "testpath = joinpath (Path output) testfile"
    by (auto simp: get_test_filepath_def Let_def split: if_splits sum.splits)
  from assms have "fs1 = fs \<or> (\<exists>j. node_at fs j = None \<and> fs1 = fs\<lparr>nodes := (nodes fs)(j \<mapsto> Dir)\<rparr>)"
    by (auto simp: get_test_filepath_def Let_def mkdir_def
        split: if_splits sum.splits option.splits)
  then show "cwd fs1 = cwd fs"
    and "nodes fs1 k = nodes fs k \<or> (nodes fs k = None \<and> nodes fs1 k = Some Dir)"
    by (auto simp: node_at_def split: if_splits)
qed

lemma main_unfold:
  assumes "tests \<noteq> []" "create_ina_map tests = Inr ina_map"
    and "get_test_filepath fs output (filename @ ''.csv'') = Inr (fs1, testpath)"
  shows "main plat filename tests verbose output fs trace =
     (case try_block plat verbose ina_map testpath fs1 trace of
        Interrupted samples \<Rightarrow>
          (case write_to_csv plat csv_header samples testpath fs1 of
             (Some e, fs2) \<Rightarrow> (Traceback e, fs2)
           | (None, fs2) \<Rightarrow> (Exit 0, fs2))
      | RangeFault msg samples \<Rightarrow> (Exit 1, fs1)
      | Raised e \<Rightarrow> (Traceback e, fs1)
      | Continue samples rest \<Rightarrow> (Running, fs1)
      | StillRunning samples \<Rightarrow> (Running, fs1))"
  using assms by (simp add: main_def)

lemma main_traceback:
  assumes "tests \<noteq> []" "create_ina_map tests = Inr ina_map"
    and "get_test_filepath fs output (filename @ ''.csv'') = Inr (fs1, testpath)"
    and "get_test_id fs1 testpath = Inl e"
  shows "main plat filename tests verbose output fs trace = (Traceback e, fs1)"
  using assms(4) by (simp add: main_unfold [OF assms(1,2,3)] try_block_def)

lemma try_block_resumed:
  "get_test_id fs testpath = Inr i \<Longrightarrow>
   try_block plat verbose ina_map testpath fs trace = while_true plat verbose ina_map i [] trace"
  by (simp add: try_block_def)









subsection \<open>Lines and fields of a text\<close>











subsection \<open>Reading back what the writer wrote\<close>












subsection \<open>The text of a date\<close>













subsection \<open>The conversion limit along a session\<close>




subsection \<open>What the flush leaves in the file system\<close>


lemma get_test_id_not_dir:
  assumes "get_test_id fs p = Inr i" "resolve fs p = Inr k"
  shows "node_at fs k \<noteq> Some Dir"
proof
  assume "node_at fs k = Some Dir"
  with assms(2) have "stat fs p = Inr Dir"
    by (simp add: stat_resolved)
  then have "get_test_id fs p = Inl IsADirectoryError"
    by (rule get_test_id_dir)
  with assms(1) show False by simp
qed


lemma main_cancelled:
  assumes "tests \<noteq> []" "create_ina_map tests = Inr ina_map"
    and "get_test_filepath fs output (filename @ ''.csv'') = Inr (fs1, testpath)"
    and "get_test_id fs1 testpath = Inr i"
    and "while_true plat verbose ina_map i [] trace = Interrupted buffer"
  shows "main plat filename tests verbose output fs trace
     = (case write_to_csv plat csv_header buffer testpath fs1 of
          (Some e, fs2) \<Rightarrow> (Traceback e, fs2)
        | (None, fs2) \<Rightarrow> (Exit 0, fs2))"
  using assms(5)
  by (simp add: main_unfold [OF assms(1,2,3)] try_block_resumed [OF assms(4)])

lemma main_faulted:
  assumes "tests \<noteq> []" "create_ina_map tests = Inr ina_map"
    and "get_test_filepath fs output (filename @ ''.csv'') = Inr (fs1, testpath)"
    and "get_test_id fs1 testpath = Inr i"
    and "while_true plat verbose ina_map i [] trace = RangeFault msg buffer"
  shows "main plat filename tests verbose output fs trace = (Exit 1, fs1)"
  using assms(5)
  by (simp add: main_unfold [OF assms(1,2,3)] try_block_resumed [OF assms(4)])

subsection \<open>Resuming the run identifier\<close>














text \<open>
  Claim C9. \<^verbatim>\<open>get_test_id\<close> does not return an identifier for every existing file: on
  an empty file it raises \<^verbatim>\<open>UnboundLocalError\<close>, on a file whose last line does not
  begin with an integer it raises \<^verbatim>\<open>ValueError\<close>, and so it does on a file that
  holds the header row only.
\<close>

theorem get_test_id_not_total:
  "(stat fs testpath = Inr (File []) \<longrightarrow> get_test_id fs testpath = Inl UnboundLocalError)
   \<and> (stat fs testpath = Inr (File content) \<and> file_lines content \<noteq> []
        \<and> py_int 10 (hd (split_comma (last (file_lines content)))) = Inl e
      \<longrightarrow> get_test_id fs testpath = Inl ValueError)
   \<and> (stat fs testpath = Inr (File (csv_writerow csv_header))
      \<longrightarrow> get_test_id fs testpath = Inl ValueError)"
proof (intro conjI impI)
  assume "stat fs testpath = Inr (File [])"
  then show "get_test_id fs testpath = Inl UnboundLocalError"
    by (simp add: get_test_id_file file_lines_def)
next
  assume a: "stat fs testpath = Inr (File content) \<and> file_lines content \<noteq> []
      \<and> py_int 10 (hd (split_comma (last (file_lines content)))) = Inl e"
  then have "e = ValueError" by (auto dest: py_int_error)
  with a show "get_test_id fs testpath = Inl ValueError"
    by (simp add: get_test_id_file)
next
  assume a: "stat fs testpath = Inr (File (csv_writerow csv_header))"
  have "file_lines (csv_writerow csv_header) \<noteq> []"
    by code_simp
  moreover have "py_int 10 (hd (split_comma (last (file_lines (csv_writerow csv_header)))))
      = Inl ValueError"
    by code_simp
  ultimately show "get_test_id fs testpath = Inl ValueError"
    using a by (simp add: get_test_id_file)
qed

theorem get_test_id_not_total_witness:
  "get_test_id (home_with_log []) (Path ''out/test.csv'') = Inl UnboundLocalError
   \<and> get_test_id (home_with_log ''run,label'') (Path ''out/test.csv'') = Inl ValueError
   \<and> get_test_id (home_with_log (csv_writerow csv_header)) (Path ''out/test.csv'')
       = Inl ValueError"
proof -
  let ?p = "Path ''out/test.csv''"
  have exists: "stat (home_with_log content) ?p = Inr (File content)" for content
    by (simp add: home_with_log_def stat_def resolve_def Path_def node_at_def)
  have lines: "file_lines ''run,label'' \<noteq> []"
    by code_simp
  have rid: "py_int 10 (hd (split_comma (last (file_lines ''run,label'')))) = Inl ValueError"
    by code_simp
  have "get_test_id (home_with_log []) ?p = Inl UnboundLocalError"
    using get_test_id_not_total [of "home_with_log []" ?p, THEN conjunct1] exists
    by simp
  moreover have "get_test_id (home_with_log ''run,label'') ?p = Inl ValueError"
    using get_test_id_not_total [of "home_with_log ''run,label''" ?p "''run,label''" ValueError,
        THEN conjunct2, THEN conjunct1] exists lines rid
    by simp
  moreover have "get_test_id (home_with_log (csv_writerow csv_header)) ?p = Inl ValueError"
    using get_test_id_not_total [of "home_with_log (csv_writerow csv_header)" ?p,
        THEN conjunct2, THEN conjunct2] exists
    by simp
  ultimately show ?thesis by simp
qed

subsection \<open>A corrupt last row\<close>

text \<open>
  Claim C2, as the code has it. For a file that exists, \<^verbatim>\<open>get_test_id\<close> fails exactly
  when the file has no line or \<^verbatim>\<open>int\<close> rejects the first comma-separated field of
  the last line; the other fields are never looked at. The failure is a
  \<^verbatim>\<open>ValueError\<close> or an \<^verbatim>\<open>UnboundLocalError\<close> that no handler catches, so the process
  ends with a traceback before the first sensor is read. The function returns 1 for an
  existing file exactly when that first field is the integer 0.
\<close>

theorem get_test_id_fails_iff:
  assumes "stat fs testpath = Inr (File content)"
  shows "((\<exists>e. get_test_id fs testpath = Inl e)
            = (file_lines content = []
               \<or> py_int 10 (hd (split_comma (last (file_lines content)))) = Inl ValueError))
       \<and> ((get_test_id fs testpath = Inr 1)
            = (file_lines content \<noteq> []
               \<and> py_int 10 (hd (split_comma (last (file_lines content)))) = Inr 0))
       \<and> (get_test_id fs testpath = Inl e
            \<longrightarrow> (e = ValueError \<or> e = UnboundLocalError)
                \<and> try_block plat verbose ina_map testpath fs trace = Raised e)
       \<and> (get_test_id fs testpath = Inl e \<and> tests \<noteq> []
            \<and> create_ina_map tests = Inr ina_map
            \<and> get_test_filepath fs0 output (filename @ ''.csv'') = Inr (fs, testpath)
            \<longrightarrow> main plat filename tests verbose output fs0 trace = (Traceback e, fs))"
proof -
  let ?rid = "py_int 10 (hd (split_comma (last (file_lines content))))"
  have unfold: "get_test_id fs testpath =
     (if file_lines content = [] then Inl UnboundLocalError
      else case ?rid of Inl e \<Rightarrow> Inl e | Inr n \<Rightarrow> Inr (n + 1))"
    using assms by (rule get_test_id_file)
  have rid: "?rid = Inl ValueError \<or> (\<exists>n. ?rid = Inr n)"
    by (cases ?rid) (auto dest: py_int_error)
  have fails: "(\<exists>e. get_test_id fs testpath = Inl e)
      = (file_lines content = [] \<or> ?rid = Inl ValueError)"
    using rid by (auto simp: unfold)
  have one: "(get_test_id fs testpath = Inr 1) = (file_lines content \<noteq> [] \<and> ?rid = Inr 0)"
    using rid by (auto simp: unfold)
  have kinds: "get_test_id fs testpath = Inl e
      \<longrightarrow> (e = ValueError \<or> e = UnboundLocalError)
          \<and> try_block plat verbose ina_map testpath fs trace = Raised e"
    using rid by (auto simp: unfold try_block_def split: if_splits)
  have fatal: "get_test_id fs testpath = Inl e \<and> tests \<noteq> []
      \<and> create_ina_map tests = Inr ina_map
      \<and> get_test_filepath fs0 output (filename @ ''.csv'') = Inr (fs, testpath)
      \<longrightarrow> main plat filename tests verbose output fs0 trace = (Traceback e, fs)"
  proof (intro impI, elim conjE)
    assume e: "get_test_id fs testpath = Inl e" and t: "tests \<noteq> []"
      and m: "create_ina_map tests = Inr ina_map"
      and p: "get_test_filepath fs0 output (filename @ ''.csv'') = Inr (fs, testpath)"
    from t m p e show "main plat filename tests verbose output fs0 trace = (Traceback e, fs)"
      by (rule main_traceback)
  qed
  from fails one kinds fatal show ?thesis by blast
qed

theorem get_test_id_fails_iff_witness:
  "get_test_id (home_with_log ''0,junk'') (Path ''out/test.csv'') = Inr 1
   \<and> get_test_id (home_with_log ''x,1,2'') (Path ''out/test.csv'') = Inl ValueError
   \<and> try_block demo_platform True [(''a'', create_ina 64)] (Path ''out/test.csv'')
        (home_with_log ''x,1,2'') [Reading demo_reading, KeyboardInterrupt]
      = Raised ValueError
   \<and> main demo_platform ''test'' [(''a'', ''0x40'')] True ''out''
        (home_with_log ''x,1,2'') [Reading demo_reading, KeyboardInterrupt]
      = (Traceback ValueError, home_with_log ''x,1,2'')"
proof -
  let ?fs = "home_with_log ''x,1,2''"
  let ?p = "Path ''out/test.csv''"
  let ?reg = "[(''a'', create_ina 64)]"
  let ?trace = "[Reading demo_reading, KeyboardInterrupt]"
  have exists: "stat (home_with_log content) ?p = Inr (File content)" for content
    by (simp add: home_with_log_def stat_def resolve_def Path_def node_at_def)
  have "file_lines ''0,junk'' \<noteq> []
      \<and> py_int 10 (hd (split_comma (last (file_lines ''0,junk'')))) = Inr 0"
    by code_simp
  then have one: "get_test_id (home_with_log ''0,junk'') ?p = Inr 1"
    using get_test_id_fails_iff [OF exists, of "''0,junk''", THEN conjunct2, THEN conjunct1]
    by simp
  note facts = get_test_id_fails_iff [where fs = ?fs and testpath = ?p
      and content = "''x,1,2''" and plat = demo_platform and verbose = True and ina_map = ?reg
      and trace = ?trace and tests = "[(''a'', ''0x40'')]" and ?fs0.0 = ?fs
      and ?output = "''out''" and filename = "''test''", OF exists]
  have "py_int 10 (hd (split_comma (last (file_lines ''x,1,2'')))) = Inl ValueError"
    by code_simp
  with facts [THEN conjunct1] obtain e where e: "get_test_id ?fs ?p = Inl e"
    by blast
  with facts [where e = e, THEN conjunct2, THEN conjunct2, THEN conjunct1]
  have kind: "e = ValueError \<or> e = UnboundLocalError"
    and raised: "try_block demo_platform True ?reg ?p ?fs ?trace = Raised e"
    by blast+
  have "get_test_id ?fs ?p \<noteq> Inl UnboundLocalError"
    by code_simp
  with e kind have v: "e = ValueError" by auto
  have reg: "create_ina_map [(''a'', ''0x40'')] = Inr ?reg"
    by code_simp
  have dir: "path_exists ?fs (Path ''out'')"
    by code_simp
  have joined: "joinpath (Path ''out'') (''test'' @ ''.csv'') = ?p"
    by code_simp
  have path: "get_test_filepath ?fs ''out'' (''test'' @ ''.csv'') = Inr (?fs, ?p)"
    using dir joined by (simp add: get_test_filepath_def Let_def)
  from facts [where e = e, THEN conjunct2, THEN conjunct2, THEN conjunct2] e reg path
  have "main demo_platform ''test'' [(''a'', ''0x40'')] True ''out'' ?fs ?trace
      = (Traceback e, ?fs)"
    by simp
  with one e raised v show ?thesis by simp
qed

text \<open>
  Claim C2 as stated fails: a last line of two fields is not the row of a sample, yet
  \<^verbatim>\<open>get_test_id\<close> raises nothing on it, and since its first field is 0 the numbering
  starts again at 1.
\<close>

theorem get_test_id_accepts_short_row:
  "get_test_id (home_with_log ''0,junk'') (Path ''out/test.csv'') = Inr 1
   \<and> \<not> has_sample_columns ''0,junk''"
  by code_simp

subsection \<open>The loop and its two exits\<close>

lemma rounds_le_reads:
  assumes "ina_map \<noteq> []" "rs = concat rounds @ partial"
    and "\<forall>r\<in>set rounds. length r = length ina_map"
  shows "length rounds \<le> length rs"
proof -
  have whole: "length (concat rounds) = length rounds * length ina_map"
    using assms(3) by (induction rounds) auto
  have "1 \<le> length ina_map" using assms(1) by (cases ina_map) auto
  then have le: "length rounds * 1 \<le> length rounds * length ina_map" by (rule mult_le_mono2)
  have "length rs = length rounds * length ina_map + length partial"
    using whole by (simp add: assms(2))
  with le show ?thesis by linarith
qed

lemma printable_prefix:
  assumes "verbose \<longrightarrow> in_str_limit i \<and> in_str_limit (i + int n)" "m \<le> n"
  shows "verbose \<longrightarrow> in_str_limit i \<and> in_str_limit (i + int m)"
  using printable_rounds [OF assms(1)] assms by auto

text \<open>
  Claim C3. When a sensor read raises \<^verbatim>\<open>DeviceRangeError\<close>, after any number of
  successful reads, the process exits with status 1 and \<^verbatim>\<open>write_to_csv\<close> is not
  called: the file system is the one that \<^verbatim>\<open>get_test_filepath\<close> left. That one
  differs from the file system before the session at most by the output directory, made
  where nothing was; no file is made or changed, and at the place of the log there is
  what was there before, nothing or the file with its old content. In verbose mode the
  read is reached when the run identifiers are within the conversion limit of
  \<^verbatim>\<open>str\<close>: beyond it, making the line that is printed after a round raises.
\<close>

theorem range_error_exits_without_flush:
  assumes "tests \<noteq> []" "create_ina_map tests = Inr ina_map"
    and "get_test_filepath fs output (filename @ ''.csv'') = Inr (fs1, testpath)"
    and "get_test_id fs1 testpath = Inr i"
    and "verbose \<longrightarrow> in_str_limit i \<and> in_str_limit (i + int (length rs))"
  shows "main plat filename tests verbose output fs (map Reading rs @ DeviceRangeError msg # t)
           = (Exit 1, fs1)
         \<and> cwd fs1 = cwd fs
         \<and> (\<forall>j. nodes fs1 j = nodes fs j \<or> (nodes fs j = None \<and> nodes fs1 j = Some Dir))
         \<and> (\<forall>k. resolve fs1 testpath = Inr k \<longrightarrow> nodes fs1 k = nodes fs k)"
proof -
  have reg: "ina_map \<noteq> []"
    using assms(1,2) by (simp add: create_ina_map_nonempty)
  from reg obtain rounds partial where
    rs: "rs = concat rounds @ partial"
    and full: "\<forall>r\<in>set rounds. length r = length ina_map"
    and part: "length partial < length ina_map"
    using split_rounds [of "length ina_map" rs] by auto
  have "length rounds \<le> length rs"
    using reg rs full by (rule rounds_le_reads)
  with assms(5) have printable:
    "verbose \<longrightarrow> in_str_limit i \<and> in_str_limit (i + int (length rounds))"
    by (rule printable_prefix)
  have "while_true plat verbose ina_map i [] (map Reading rs @ DeviceRangeError msg # t)
      = RangeFault msg (session_samples plat i ina_map (rounds @ [partial]))"
    using while_true_faulted [OF reg full part printable, where plat = plat and samples = "[]"
        and msg = msg and t = t]
    by (simp add: rs map_concat)
  with assms(1,2,3,4) have exit: "main plat filename tests verbose output fs
      (map Reading rs @ DeviceRangeError msg # t) = (Exit 1, fs1)"
    by (rule main_faulted)
  note kept = get_test_filepath_result [OF assms(3)]
  have place: "nodes fs1 k = nodes fs k" if "resolve fs1 testpath = Inr k" for k
  proof -
    from get_test_id_not_dir [OF assms(4) that] have "node_at fs1 k \<noteq> Some Dir" .
    then have "nodes fs1 k \<noteq> Some Dir"
      by (auto simp: node_at_def split: if_splits)
    with kept(3) [of k] show ?thesis by auto
  qed
  from exit kept(2,3) place show ?thesis by blast
qed

theorem range_error_exits_without_flush_witness:
  "main demo_platform ''test'' [(''a'', ''0x40''), (''b'', ''0x41'')] True ''out''
     (home_with_log ''41,a'')
     [Reading demo_reading, Reading demo_reading, Reading demo_reading,
      DeviceRangeError ''overflow'']
   = (Exit 1, home_with_log ''41,a'')
   \<and> nodes (home_with_log ''41,a'') [''home'', ''out'', ''test.csv''] = Some (File ''41,a'')"
proof -
  let ?tests = "[(''a'', ''0x40''), (''b'', ''0x41'')]"
  let ?fs = "home_with_log ''41,a''"
  let ?p = "Path ''out/test.csv''"
  have tests: "?tests \<noteq> []" by simp
  have reg: "create_ina_map ?tests = Inr [(''a'', create_ina 64), (''b'', create_ina 65)]"
    by code_simp
  have dir: "path_exists ?fs (Path ''out'')"
    by code_simp
  have joined: "joinpath (Path ''out'') (''test'' @ ''.csv'') = ?p"
    by code_simp
  have path: "get_test_filepath ?fs ''out'' (''test'' @ ''.csv'') = Inr (?fs, ?p)"
    using dir joined by (simp add: get_test_filepath_def Let_def)
  have rid: "get_test_id ?fs ?p = Inr 42" by code_simp
  have place: "resolve ?fs ?p = Inr [''home'', ''out'', ''test.csv'']" by code_simp
  have old: "nodes ?fs [''home'', ''out'', ''test.csv''] = Some (File ''41,a'')"
    by (simp add: home_with_log_def)
  have printable: "True \<longrightarrow> in_str_limit 42
      \<and> in_str_limit (42 + int (length [demo_reading, demo_reading, demo_reading]))"
    by code_simp
  note facts = range_error_exits_without_flush [OF tests reg path rid printable,
      where plat = demo_platform and msg = "''overflow''" and t = "[]"]
  from facts [THEN conjunct1]
  have "main demo_platform ''test'' ?tests True ''out'' ?fs
      [Reading demo_reading, Reading demo_reading, Reading demo_reading,
       DeviceRangeError ''overflow''] = (Exit 1, ?fs)"
    by simp
  moreover from facts [THEN conjunct2, THEN conjunct2, THEN conjunct2, rule_format, OF place] old
  have "nodes ?fs [''home'', ''out'', ''test.csv''] = Some (File ''41,a'')"
    by simp
  ultimately show ?thesis by simp
qed

text \<open>
  Claim C5. After \<open>n\<close> complete rounds the loop goes on with the run identifier
  raised by \<open>n\<close>, whatever the number of sensors. The buffer holds one sample per
  sensor and round: the samples of round \<open>k\<close> (counted from 0) carry the labels of the
  registry in its order and all have the run identifier \<open>i + k\<close>. In verbose mode this
  holds when the run identifiers are within the conversion limit of \<^verbatim>\<open>str\<close>: beyond
  it, making the line that is printed after a round raises.
\<close>

theorem round_atomicity:
  assumes "ina_map \<noteq> []" "\<forall>rs\<in>set rounds. length rs = length ina_map"
    and "verbose \<longrightarrow> in_str_limit i \<and> in_str_limit (i + int (length rounds))"
  shows "while_true plat verbose ina_map i [] (concat (map (map Reading) rounds) @ t)
           = while_true plat verbose ina_map (i + int (length rounds))
               (session_samples plat i ina_map rounds) t
         \<and> while_true plat verbose ina_map i [] (concat (map (map Reading) rounds) @ KeyboardInterrupt # t)
           = Interrupted (session_samples plat i ina_map rounds)
         \<and> length (session_samples plat i ina_map rounds) = length rounds * length ina_map
         \<and> (\<forall>k<length rounds.
              map s_label (take (length ina_map)
                  (drop (k * length ina_map) (session_samples plat i ina_map rounds)))
                = map fst ina_map
              \<and> map s_run_id (take (length ina_map)
                  (drop (k * length ina_map) (session_samples plat i ina_map rounds)))
                = replicate (length ina_map) (i + int k))"
proof (intro conjI allI impI)
  show "while_true plat verbose ina_map i [] (concat (map (map Reading) rounds) @ t)
      = while_true plat verbose ina_map (i + int (length rounds)) (session_samples plat i ina_map rounds) t"
    using while_true_rounds [OF assms(1,2), where plat = plat and verbose = verbose and i = i
        and samples = "[]" and t = t] printable_rounds [OF assms(3)]
    by simp
next
  show "while_true plat verbose ina_map i [] (concat (map (map Reading) rounds) @ KeyboardInterrupt # t)
      = Interrupted (session_samples plat i ina_map rounds)"
    using while_true_cancelled [OF assms(1,2) _ assms(3), where partial = "[]" and plat = plat
        and samples = "[]" and t = t] assms(1)
    by (simp add: session_samples_append)
next
  show "length (session_samples plat i ina_map rounds) = length rounds * length ina_map"
    using assms(2) by (rule length_session_samples)
next
  fix k assume k: "k < length rounds"
  then have len: "length (rounds ! k) = length ina_map"
    using assms(2) by simp
  have slice: "take (length ina_map)
      (drop (k * length ina_map) (session_samples plat i ina_map rounds))
      = round_samples plat (i + int k) ina_map (rounds ! k)"
    using assms(2) k by (rule session_samples_slice)
  show "map s_label (take (length ina_map)
      (drop (k * length ina_map) (session_samples plat i ina_map rounds))) = map fst ina_map"
    unfolding slice using len by (simp add: label_round_samples)
  show "map s_run_id (take (length ina_map)
      (drop (k * length ina_map) (session_samples plat i ina_map rounds)))
      = replicate (length ina_map) (i + int k)"
    unfolding slice using len by (simp add: run_id_round_samples)
qed

theorem round_atomicity_witness:
  "while_true demo_platform True [(''a'', create_ina 64), (''b'', create_ina 65)] 1 []
     [Reading demo_reading, Reading demo_reading, Reading demo_reading, Reading demo_reading,
      KeyboardInterrupt]
   = Interrupted (session_samples demo_platform 1 [(''a'', create_ina 64), (''b'', create_ina 65)]
       [[demo_reading, demo_reading], [demo_reading, demo_reading]])
   \<and> length (session_samples demo_platform 1 [(''a'', create_ina 64), (''b'', create_ina 65)]
       [[demo_reading, demo_reading], [demo_reading, demo_reading]]) = 4
   \<and> map s_label (take 2 (drop 2
        (session_samples demo_platform 1 [(''a'', create_ina 64), (''b'', create_ina 65)]
          [[demo_reading, demo_reading], [demo_reading, demo_reading]]))) = [''a'', ''b'']
   \<and> map s_run_id (take 2 (drop 2
        (session_samples demo_platform 1 [(''a'', create_ina 64), (''b'', create_ina 65)]
          [[demo_reading, demo_reading], [demo_reading, demo_reading]]))) = [2, 2]"
proof -
  let ?reg = "[(''a'', create_ina 64), (''b'', create_ina 65)]"
  let ?rounds = "[[demo_reading, demo_reading], [demo_reading, demo_reading]]"
  have reg: "?reg \<noteq> []" by simp
  have full: "\<forall>rs\<in>set ?rounds. length rs = length ?reg" by simp
  have printable: "True \<longrightarrow> in_str_limit 1 \<and> in_str_limit (1 + int (length ?rounds))"
    by code_simp
  note facts = round_atomicity [OF reg full printable, where plat = demo_platform and t = "[]"]
  from facts [THEN conjunct2, THEN conjunct1]
  have loop: "while_true demo_platform True ?reg 1 []
      [Reading demo_reading, Reading demo_reading, Reading demo_reading, Reading demo_reading,
       KeyboardInterrupt]
    = Interrupted (session_samples demo_platform 1 ?reg ?rounds)"
    by simp
  from facts [THEN conjunct2, THEN conjunct2, THEN conjunct1]
  have len: "length (session_samples demo_platform 1 ?reg ?rounds) = 4"
    by simp
  have k: "(1::nat) < length ?rounds" by simp
  from facts [THEN conjunct2, THEN conjunct2, THEN conjunct2, rule_format, OF k]
  have "map s_label (take 2 (drop 2 (session_samples demo_platform 1 ?reg ?rounds)))
        = [''a'', ''b'']
      \<and> map s_run_id (take 2 (drop 2 (session_samples demo_platform 1 ?reg ?rounds)))
        = [2, 2]"
    by (simp add: numeral_2_eq_2)
  with loop len show ?thesis by blast
qed

subsection \<open>The flush at a cancellation\<close>

lemma cancel_with_unopenable_log:
  assumes "tests \<noteq> []" "create_ina_map tests = Inr ina_map"
    and "get_test_filepath fs output (filename @ ''.csv'') = Inr (fs1, testpath)"
    and "resolve fs1 testpath = Inl e"
    and "verbose \<longrightarrow> in_str_limit (1 + int (length rs))"
  shows "main plat filename tests verbose output fs (map Reading rs @ KeyboardInterrupt # t)
     = (Traceback e, fs1)"
proof -
  have reg: "ina_map \<noteq> []"
    using assms(1,2) by (simp add: create_ina_map_nonempty)
  then obtain rounds partial where
    rs: "rs = concat rounds @ partial"
    and full: "\<forall>r\<in>set rounds. length r = length ina_map"
    and part: "length partial < length ina_map"
    using split_rounds [of "length ina_map" rs] by auto
  have "\<not> path_exists fs1 testpath"
    using assms(4) by (simp add: path_exists_def stat_unresolved)
  then have rid: "get_test_id fs1 testpath = Inr 1"
    by (rule get_test_id_absent)
  have "in_str_limit 1"
    by code_simp
  with assms(5) have "verbose \<longrightarrow> in_str_limit 1 \<and> in_str_limit (1 + int (length rs))"
    by simp
  moreover have "length rounds \<le> length rs"
    using reg rs full by (rule rounds_le_reads)
  ultimately have printable:
    "verbose \<longrightarrow> in_str_limit 1 \<and> in_str_limit (1 + int (length rounds))"
    by (rule printable_prefix)
  have loop: "while_true plat verbose ina_map 1 [] (map Reading rs @ KeyboardInterrupt # t)
      = Interrupted (session_samples plat 1 ina_map (rounds @ [partial]))"
    using while_true_cancelled [OF reg full part printable, where plat = plat
        and samples = "[]" and t = t]
    by (simp add: rs map_concat)
  show ?thesis
    unfolding main_cancelled [OF assms(1,2,3) rid loop]
    by (simp add: write_to_csv_unresolved [OF assms(4)])
qed










subsection \<open>The records of the file\<close>
















subsection \<open>The registry\<close>

lemma map_of_dict_set: "map_of (dict_set d k v) = (map_of d)(k \<mapsto> v)"
  by (induction d) (auto simp: fun_eq_iff)

lemma keys_dict_set:
  "map fst (dict_set d k v) = (if k \<in> set (map fst d) then map fst d else map fst d @ [k])"
  by (induction d) (force split: if_splits)+

lemma distinct_dict_set: "distinct (map fst d) \<Longrightarrow> distinct (map fst (dict_set d k v))"
  by (simp add: keys_dict_set)

lemma comprehension_ok:
  assumes "\<forall>entry\<in>set tests. \<exists>n. py_int 16 (snd entry) = Inr n"
  shows "\<exists>ina_map. comprehension tests d = Inr ina_map
           \<and> (distinct (map fst d) \<longrightarrow> distinct (map fst ina_map))
           \<and> set (map fst ina_map) = set (map fst d) \<union> set (map fst tests)
           \<and> (\<forall>l. map_of ina_map l
                  = (case map_of (rev tests) l of
                       None \<Rightarrow> map_of d l
                     | Some a \<Rightarrow> Some (create_ina (projr (py_int 16 a)))))"
  using assms
proof (induction tests arbitrary: d)
  case Nil
  then show ?case by simp
next
  case (Cons t tests)
  obtain l a where t: "t = (l, a)" by (cases t)
  from Cons.prems t obtain n where n: "py_int 16 a = Inr n" by auto
  let ?d = "dict_set d l (create_ina n)"
  from Cons.prems have "\<forall>entry\<in>set tests. \<exists>n. py_int 16 (snd entry) = Inr n" by simp
  from Cons.IH [OF this, of ?d] obtain ina_map where
    run: "comprehension tests ?d = Inr ina_map"
    and dist: "distinct (map fst ?d) \<longrightarrow> distinct (map fst ina_map)"
    and keys: "set (map fst ina_map) = set (map fst ?d) \<union> set (map fst tests)"
    and vals: "\<forall>k. map_of ina_map k
        = (case map_of (rev tests) k of
             None \<Rightarrow> map_of ?d k
           | Some a \<Rightarrow> Some (create_ina (projr (py_int 16 a))))"
    by blast
  have "comprehension (t # tests) d = Inr ina_map"
    by (simp add: t n run)
  moreover have "distinct (map fst d) \<longrightarrow> distinct (map fst ina_map)"
    using dist by (simp add: distinct_dict_set)
  moreover have "set (map fst ina_map) = set (map fst d) \<union> set (map fst (t # tests))"
    using keys by (auto simp: keys_dict_set t split: if_splits)
  moreover have "\<forall>k. map_of ina_map k
        = (case map_of (rev (t # tests)) k of
             None \<Rightarrow> map_of d k
           | Some a \<Rightarrow> Some (create_ina (projr (py_int 16 a))))"
    using vals n by (auto simp: t map_of_dict_set map_add_def split: option.splits)
  ultimately show ?case by blast
qed

lemma comprehension_bad:
  "\<exists>entry\<in>set tests. \<exists>e. py_int 16 (snd entry) = Inl e \<Longrightarrow> comprehension tests d = Inl ValueError"
proof (induction tests arbitrary: d)
  case Nil
  then show ?case by simp
next
  case (Cons t tests)
  obtain l a where t: "t = (l, a)" by (cases t)
  show ?case
  proof (cases "py_int 16 a")
    case (Inl e)
    then show ?thesis using py_int_error [OF Inl] by (simp add: t)
  next
    case (Inr n)
    with Cons.prems t have "\<exists>entry\<in>set tests. \<exists>e. py_int 16 (snd entry) = Inl e" by auto
    from Cons.IH [OF this] Inr show ?thesis by (simp add: t)
  qed
qed


text \<open>
  Claim C10. When every address is a hexadecimal number, \<^verbatim>\<open>create_ina_map\<close> raises
  nothing, whatever labels repeat: the registry has one entry for each distinct label, and
  a label that occurs several times is mapped to the handle of the address of its last
  occurrence. So with a repeated label the registry is shorter than the list of entries,
  and a round yields one sample per entry of the registry, fewer than were configured.
  The only error of the construction is the \<^verbatim>\<open>ValueError\<close> of an address that
  \<^verbatim>\<open>int\<close> rejects.
\<close>

theorem duplicate_labels_collapse:
  "((\<forall>entry\<in>set tests. \<exists>n. py_int 16 (snd entry) = Inr n) \<longrightarrow>
      (\<exists>ina_map. create_ina_map tests = Inr ina_map
         \<and> distinct (map fst ina_map)
         \<and> set (map fst ina_map) = set (map fst tests)
         \<and> length ina_map = card (set (map fst tests))
         \<and> (\<not> distinct (map fst tests) \<longrightarrow> length ina_map < length tests)
         \<and> (\<forall>l a n. map_of (rev tests) l = Some a \<and> py_int 16 a = Inr n
               \<longrightarrow> map_of ina_map l = Some (create_ina n))
         \<and> (\<forall>rs. length rs = length ina_map
               \<longrightarrow> for_sensors plat i ina_map [] (map Reading rs @ t)
                   = Continue (round_samples plat i ina_map rs) t
                 \<and> length (round_samples plat i ina_map rs) = length ina_map)))
   \<and> ((\<exists>entry\<in>set tests. \<exists>e. py_int 16 (snd entry) = Inl e)
      \<longrightarrow> create_ina_map tests = Inl ValueError)"
proof (intro conjI impI)
  assume "\<forall>entry\<in>set tests. \<exists>n. py_int 16 (snd entry) = Inr n"
  from comprehension_ok [OF this, of "[]"] obtain ina_map where
    run: "create_ina_map tests = Inr ina_map"
    and dist: "distinct (map fst ina_map)"
    and keys: "set (map fst ina_map) = set (map fst tests)"
    and vals: "\<forall>l. map_of ina_map l
        = (case map_of (rev tests) l of
             None \<Rightarrow> map_of [] l
           | Some a \<Rightarrow> Some (create_ina (projr (py_int 16 a))))"
    unfolding create_ina_map_def by auto
  have len: "length ina_map = card (set (map fst tests))"
    using distinct_card [OF dist] keys by simp
  have fewer: "\<not> distinct (map fst tests) \<longrightarrow> length ina_map < length tests"
  proof
    assume "\<not> distinct (map fst tests)"
    then have "card (set (map fst tests)) \<noteq> length (map fst tests)"
      using card_distinct [of "map fst tests"] by blast
    moreover have "card (set (map fst tests)) \<le> length (map fst tests)"
      by (rule card_length)
    ultimately show "length ina_map < length tests" using len by simp
  qed
  have last: "\<forall>l a n. map_of (rev tests) l = Some a \<and> py_int 16 a = Inr n
      \<longrightarrow> map_of ina_map l = Some (create_ina n)"
    using vals by simp
  have round: "\<forall>rs. length rs = length ina_map
      \<longrightarrow> for_sensors plat i ina_map [] (map Reading rs @ t)
          = Continue (round_samples plat i ina_map rs) t
        \<and> length (round_samples plat i ina_map rs) = length ina_map"
    using for_sensors_full [of _ ina_map plat i "[]" t] by simp
  from run dist keys len fewer last round
  show "\<exists>ina_map. create_ina_map tests = Inr ina_map
         \<and> distinct (map fst ina_map)
         \<and> set (map fst ina_map) = set (map fst tests)
         \<and> length ina_map = card (set (map fst tests))
         \<and> (\<not> distinct (map fst tests) \<longrightarrow> length ina_map < length tests)
         \<and> (\<forall>l a n. map_of (rev tests) l = Some a \<and> py_int 16 a = Inr n
               \<longrightarrow> map_of ina_map l = Some (create_ina n))
         \<and> (\<forall>rs. length rs = length ina_map
               \<longrightarrow> for_sensors plat i ina_map [] (map Reading rs @ t)
                   = Continue (round_samples plat i ina_map rs) t
                 \<and> length (round_samples plat i ina_map rs) = length ina_map)"
    by blast
next
  assume "\<exists>entry\<in>set tests. \<exists>e. py_int 16 (snd entry) = Inl e"
  then show "create_ina_map tests = Inl ValueError"
    unfolding create_ina_map_def by (rule comprehension_bad)
qed

theorem duplicate_labels_collapse_witness:
  "create_ina_map [(''a'', ''0x40''), (''b'', ''0x41''), (''a'', ''0x42'')]
     = Inr [(''a'', create_ina 66), (''b'', create_ina 65)]
   \<and> (\<exists>ina_map. create_ina_map [(''a'', ''0x40''), (''b'', ''0x41''), (''a'', ''0x42'')] = Inr ina_map
        \<and> length ina_map < length [(''a'', ''0x40''), (''b'', ''0x41''), (''a'', ''0x42'')]
        \<and> map_of ina_map ''a'' = Some (create_ina 66)
        \<and> for_sensors demo_platform 1 ina_map []
             (map Reading (replicate (length ina_map) demo_reading) @ [KeyboardInterrupt])
           = Continue (round_samples demo_platform 1 ina_map
               (replicate (length ina_map) demo_reading)) [KeyboardInterrupt]
        \<and> length (round_samples demo_platform 1 ina_map
               (replicate (length ina_map) demo_reading)) = length ina_map)
   \<and> create_ina_map [(''a'', ''0x40''), (''b'', ''4g'')] = Inl ValueError"
proof -
  let ?tests = "[(''a'', ''0x40''), (''b'', ''0x41''), (''a'', ''0x42'')]"
  have a40: "py_int 16 ''0x40'' = Inr 64" and a41: "py_int 16 ''0x41'' = Inr 65"
    and a42: "py_int 16 ''0x42'' = Inr 66" and bad: "py_int 16 ''4g'' = Inl ValueError"
    by code_simp+
  have parse: "\<forall>entry\<in>set ?tests. \<exists>n. py_int 16 (snd entry) = Inr n"
    by (simp add: a40 a41 a42)
  have dup: "\<not> distinct (map fst ?tests)" by simp
  have lst: "map_of (rev ?tests) ''a'' = Some ''0x42''" by simp
  from duplicate_labels_collapse [of ?tests demo_platform 1 "[KeyboardInterrupt]",
      THEN conjunct1] parse
  obtain ina_map where run: "create_ina_map ?tests = Inr ina_map"
    and fewer: "\<not> distinct (map fst ?tests) \<longrightarrow> length ina_map < length ?tests"
    and vals: "\<forall>l a n. map_of (rev ?tests) l = Some a \<and> py_int 16 a = Inr n
        \<longrightarrow> map_of ina_map l = Some (create_ina n)"
    and round: "\<forall>rs. length rs = length ina_map
        \<longrightarrow> for_sensors demo_platform 1 ina_map [] (map Reading rs @ [KeyboardInterrupt])
            = Continue (round_samples demo_platform 1 ina_map rs) [KeyboardInterrupt]
          \<and> length (round_samples demo_platform 1 ina_map rs) = length ina_map"
    by blast
  from vals lst a42 have last: "map_of ina_map ''a'' = Some (create_ina 66)" by blast
  have "length (replicate (length ina_map) demo_reading) = length ina_map" by simp
  with round have "for_sensors demo_platform 1 ina_map []
        (map Reading (replicate (length ina_map) demo_reading) @ [KeyboardInterrupt])
      = Continue (round_samples demo_platform 1 ina_map
          (replicate (length ina_map) demo_reading)) [KeyboardInterrupt]
    \<and> length (round_samples demo_platform 1 ina_map
          (replicate (length ina_map) demo_reading)) = length ina_map"
    by blast
  with run fewer dup last have collapsed: "\<exists>ina_map. create_ina_map ?tests = Inr ina_map
      \<and> length ina_map < length ?tests \<and> map_of ina_map ''a'' = Some (create_ina 66)
      \<and> for_sensors demo_platform 1 ina_map []
           (map Reading (replicate (length ina_map) demo_reading) @ [KeyboardInterrupt])
         = Continue (round_samples demo_platform 1 ina_map
             (replicate (length ina_map) demo_reading)) [KeyboardInterrupt]
      \<and> length (round_samples demo_platform 1 ina_map
             (replicate (length ina_map) demo_reading)) = length ina_map"
    by blast
  have explicit: "create_ina_map ?tests = Inr [(''a'', create_ina 66), (''b'', create_ina 65)]"
    by code_simp
  have "\<exists>entry\<in>set [(''a'', ''0x40''), (''b'', ''4g'')]. \<exists>e. py_int 16 (snd entry) = Inl e"
    by (simp add: bad)
  with duplicate_labels_collapse [of "[(''a'', ''0x40''), (''b'', ''4g'')]", THEN conjunct2]
  have "create_ina_map [(''a'', ''0x40''), (''b'', ''4g'')] = Inl ValueError"
    by blast
  with explicit collapsed show ?thesis by blast
qed

end
